theory Spec2Isabelle
  imports Complex_Main "HOL-Library.Sublist"
begin

section \<open>Data models of the ACI knowledge graph (src/model.py)\<close>

text \<open>
  The models are pydantic classes. Constructing one validates the keyword arguments
  field by field, in declaration order, and raises a single \<open>ValidationError\<close> that
  lists every offending field; otherwise the instance is returned. A constructor is
  modelled as a function from the supplied arguments (each \<open>None\<close> when the keyword is
  left out) to \<open>error + record\<close>. Arguments are taken at the annotated Python types.
\<close>

datatype error =
    ValidationError "string list"
  | NotFoundError string
  | EmbeddingProviderError
  | NoMatchFound
  | NoPathFound

text \<open>
  A Python \<open>float\<close>: a finite value, read as the real number it denotes, an infinity or
  a NaN. The comparisons against the bounds of \<open>Field(ge=..., le=...)\<close> are exact; a NaN
  compares false with everything.
\<close>

datatype pyfloat = Finite real | PosInf | NegInf | NaN

fun float_ge :: "pyfloat \<Rightarrow> real \<Rightarrow> bool" where
  "float_ge (Finite x) b = (b \<le> x)"
| "float_ge PosInf b = True"
| "float_ge NegInf b = False"
| "float_ge NaN b = False"

fun float_le :: "pyfloat \<Rightarrow> real \<Rightarrow> bool" where
  "float_le (Finite x) b = (x \<le> b)"
| "float_le PosInf b = False"
| "float_le NegInf b = True"
| "float_le NaN b = False"

text \<open>\<open>RelationType = Literal["supports", "refutes", "extends", "implies", "contradicts"]\<close>\<close>

definition RelationType :: "string list" where
  "RelationType = [''supports'', ''refutes'', ''extends'', ''implies'', ''contradicts'']"

text \<open>
  \<open>class AtomicUnit\<close>. The field \<open>id\<close> is named \<open>unit_id\<close> here (\<open>id\<close> is the identity
  function of HOL); \<open>created_at\<close> is a clock reading.
\<close>

record AtomicUnit =
  unit_id :: string
  content :: string
  source_doi :: "string option"
  confidence :: pyfloat
  created_at :: nat
  vector :: "pyfloat list"

text \<open>The keyword arguments of \<open>AtomicUnit(...)\<close>; \<open>None\<close> is a keyword left out.\<close>

record AtomicUnit_args =
  arg_id :: "string option"
  arg_content :: "string option"
  arg_source_doi :: "string option"
  arg_confidence :: "pyfloat option"
  arg_created_at :: "nat option"
  arg_vector :: "pyfloat list option"

text \<open>
  \<open>class Relation\<close>. The field \<open>type\<close> is named \<open>rel_type\<close> and the second
  \<open>created_at\<close> is named \<open>rel_created_at\<close>.
\<close>

record Relation =
  source_id :: string
  target_id :: string
  rel_type :: string
  reasoning :: string
  rel_created_at :: nat

record Relation_args =
  arg_source_id :: "string option"
  arg_target_id :: "string option"
  arg_type :: "string option"
  arg_reasoning :: "string option"
  arg_rel_created_at :: "nat option"

text \<open>
  Field validators. \<open>Field(...)\<close> makes a field required and puts no other constraint
  on a \<open>str\<close>; \<open>Field(1.0, ge=0.0, le=1.0)\<close> gives the default \<open>1.0\<close> and checks both
  bounds on a supplied value; a \<open>Literal\<close> field accepts exactly its listed values.
\<close>

definition required :: "string \<Rightarrow> 'a option \<Rightarrow> string list + 'a" where
  "required name v = (case v of None \<Rightarrow> Inl [name] | Some x \<Rightarrow> Inr x)"

definition validate_confidence :: "pyfloat option \<Rightarrow> string list + pyfloat" where
  "validate_confidence v =
     (case v of
        None \<Rightarrow> Inr (Finite 1)
      | Some x \<Rightarrow> if float_ge x 0 \<and> float_le x 1 then Inr x else Inl [''confidence''])"

definition validate_type :: "string option \<Rightarrow> string list + string" where
  "validate_type v =
     (case v of
        None \<Rightarrow> Inl [''type'']
      | Some t \<Rightarrow> if t \<in> set RelationType then Inr t else Inl [''type''])"

fun errors_of :: "string list + 'a \<Rightarrow> string list" where
  "errors_of (Inl es) = es"
| "errors_of (Inr x) = []"

definition default_to :: "'a \<Rightarrow> 'a option \<Rightarrow> 'a" where
  "default_to d v = (case v of None \<Rightarrow> d | Some x \<Rightarrow> x)"

text \<open>
  \<open>AtomicUnit(**args)\<close>. \<open>fresh_uuid\<close> is what \<open>str(uuid.uuid4())\<close> returns and \<open>now\<close> what
  \<open>datetime.now()\<close> returns when the default factories are called.
\<close>

definition AtomicUnit_new :: "string \<Rightarrow> nat \<Rightarrow> AtomicUnit_args \<Rightarrow> error + AtomicUnit" where
  "AtomicUnit_new fresh_uuid now args =
     (case (required ''content'' (arg_content args),
            validate_confidence (arg_confidence args)) of
        (Inr c, Inr f) \<Rightarrow>
          Inr \<lparr> unit_id = default_to fresh_uuid (arg_id args),
                content = c,
                source_doi = arg_source_doi args,
                confidence = f,
                created_at = default_to now (arg_created_at args),
                vector = default_to [] (arg_vector args) \<rparr>
      | (rc, rf) \<Rightarrow> Inl (ValidationError (errors_of rc @ errors_of rf)))"

text \<open>\<open>Relation(**args)\<close>.\<close>

definition Relation_new :: "nat \<Rightarrow> Relation_args \<Rightarrow> error + Relation" where
  "Relation_new now args =
     (case (required ''source_id'' (arg_source_id args),
            required ''target_id'' (arg_target_id args),
            validate_type (arg_type args),
            required ''reasoning'' (arg_reasoning args)) of
        (Inr s, Inr t, Inr ty, Inr r) \<Rightarrow>
          Inr \<lparr> source_id = s, target_id = t, rel_type = ty, reasoning = r,
                rel_created_at = default_to now (arg_rel_created_at args) \<rparr>
      | (rs, rt, rty, rr) \<Rightarrow>
          Inl (ValidationError (errors_of rs @ errors_of rt @ errors_of rty @ errors_of rr)))"

text \<open>\<open>class AvailableAction\<close>; the \<open>dict\<close> of suggested arguments keeps insertion order.\<close>

record AvailableAction =
  tool :: string
  description :: string
  suggested_args :: "(string \<times> string) list option"

text \<open>\<open>def get_unit_actions(unit_id)\<close>: every constructor call has literal, valid fields.\<close>

definition get_unit_actions :: "string \<Rightarrow> AvailableAction list" where
  "get_unit_actions uid =
     [ \<lparr> tool = ''connect_propositions'',
         description = ''Link this unit to another proposition'',
         suggested_args = Some [(''id_a'', uid)] \<rparr>,
       \<lparr> tool = ''semantic_search'',
         description = ''Find related concepts'',
         suggested_args = None \<rparr>,
       \<lparr> tool = ''find_contradictions'',
         description = ''Check for conflicts with this claim'',
         suggested_args = None \<rparr>,
       \<lparr> tool = ''get_unit'',
         description = ''Get full details of this unit'',
         suggested_args = Some [(''unit_id'', uid)] \<rparr> ]"

text \<open>\<open>class ConflictResult\<close> and \<open>class ConflictResponse\<close>.\<close>

record ConflictResult =
  conflicting_unit :: AtomicUnit
  relation :: "Relation option"
  explanation :: string

record ConflictResponse =
  claim :: string
  conflicts_found :: bool
  conflicts :: "ConflictResult list"
  available_actions :: "AvailableAction list"

text \<open>
  \<open>class LineageStep\<close> and \<open>class LineageResponse\<close>. The field \<open>unit\<close> is named
  \<open>step_unit\<close> and the \<open>available_actions\<close> of a lineage is named \<open>lineage_actions\<close>.
\<close>

record LineageStep =
  step_unit :: AtomicUnit
  relation_to_next :: "Relation option"

record LineageResponse =
  start_concept :: string
  end_concept :: string
  path :: "LineageStep list"
  path_length :: int
  lineage_actions :: "AvailableAction list"


text \<open>
  The closed interval \<open>[0,1]\<close> of the specification, on Python floats: only a finite
  value can lie in it.
\<close>

fun in_unit_interval :: "pyfloat \<Rightarrow> bool" where
  "in_unit_interval (Finite x) = (0 \<le> x \<and> x \<le> 1)"
| "in_unit_interval PosInf = False"
| "in_unit_interval NegInf = False"
| "in_unit_interval NaN = False"

section \<open>The engine behind the tools (module \<open>server\<close>)\<close>

text \<open>
  The test script imports \<open>ingest_hypothesis\<close>, \<open>connect_propositions\<close>,
  \<open>semantic_search\<close>, \<open>find_scientific_lineage\<close>, \<open>find_contradictions\<close>,
  \<open>list_propositions\<close> and \<open>get_unit\<close> from \<open>src.server\<close>, a module that is not among
  the sources. The definitions of this section follow sections 3, 4 and 7 of the
  specification instead. Calls that reach outside the engine
  take what the outside returns as an argument: \<open>fresh_uuid\<close> and \<open>now\<close> as above,
  \<open>embedded\<close> for the answer of the embedding provider (\<open>None\<close> when it fails after its
  retries) and \<open>sim\<close> for the normalised similarity of two vectors.
\<close>

text \<open>
  Modelled from the spec: the state of the engine, missing with \<open>server\<close>: UnitStore and
  RelationGraph in insertion order, the EmbeddingIndex keyed by unit id, one idempotency
  record for ingestion (key to unit id) and one for connection (key to a synthetic
  relation id, the position of the edge), and a count of the calls made to the embedding
  provider.
\<close>

record engine =
  units :: "AtomicUnit list"
  relations :: "Relation list"
  index :: "(string \<times> pyfloat list) list"
  ingest_keys :: "(string \<times> string) list"
  connect_keys :: "(string \<times> nat) list"
  embed_calls :: nat

definition empty_engine :: engine where
  "empty_engine = \<lparr> units = [], relations = [], index = [], ingest_keys = [],
                     connect_keys = [], embed_calls = 0 \<rparr>"

text \<open>Modelled from the spec: \<open>UnitStore.get\<close> (4.1), missing with \<open>server\<close>.\<close>

definition get_unit :: "engine \<Rightarrow> string \<Rightarrow> error + AtomicUnit" where
  "get_unit s uid =
     (case find (\<lambda>u. unit_id u = uid) (units s) of
        None \<Rightarrow> Inl (NotFoundError uid)
      | Some u \<Rightarrow> Inr u)"

text \<open>
  Modelled from the spec: \<open>UnitStore.put\<close> (4.1), missing with \<open>server\<close>: a new
  identifier and timestamp, no check of the content.
\<close>

definition put ::
  "string \<Rightarrow> nat \<Rightarrow> string \<Rightarrow> string option \<Rightarrow> pyfloat option \<Rightarrow> pyfloat list \<Rightarrow> engine
     \<Rightarrow> AtomicUnit \<times> engine" where
  "put fresh_uuid now c src conf v s =
     (let u = \<lparr> unit_id = fresh_uuid, content = c, source_doi = src,
                 confidence = default_to (Finite 1) conf, created_at = now, vector = v \<rparr>
      in (u, s\<lparr>units := units s @ [u]\<rparr>))"

text \<open>Modelled from the spec: \<open>UnitStore.list\<close> (4.1), missing with \<open>server\<close>.\<close>

definition list_units :: "engine \<Rightarrow> nat \<Rightarrow> AtomicUnit list" where
  "list_units s limit = take limit (units s)"

text \<open>Modelled from the spec: \<open>RelationGraph.add_edge\<close> (4.2), missing with \<open>server\<close>.\<close>

definition add_edge ::
  "nat \<Rightarrow> string \<Rightarrow> string \<Rightarrow> string \<Rightarrow> string \<Rightarrow> engine \<Rightarrow> (error + Relation) \<times> engine" where
  "add_edge now src tgt ty why s =
     (case get_unit s src of
        Inl e \<Rightarrow> (Inl e, s)
      | Inr a \<Rightarrow>
          (case get_unit s tgt of
             Inl e \<Rightarrow> (Inl e, s)
           | Inr b \<Rightarrow>
               (let r = \<lparr> source_id = src, target_id = tgt, rel_type = ty,
                           reasoning = why, rel_created_at = now \<rparr>
                in (Inr r, s\<lparr>relations := relations s @ [r]\<rparr>))))"

text \<open>Modelled from the spec: \<open>EmbeddingIndex.upsert\<close> (4.3), missing with \<open>server\<close>.\<close>

fun upsert_entry :: "string \<Rightarrow> pyfloat list \<Rightarrow> (string \<times> pyfloat list) list
    \<Rightarrow> (string \<times> pyfloat list) list" where
  "upsert_entry uid v [] = [(uid, v)]"
| "upsert_entry uid v ((k, w) # es) =
     (if k = uid then (k, v) # es else (k, w) # upsert_entry uid v es)"

definition upsert :: "string \<Rightarrow> pyfloat list \<Rightarrow> engine \<Rightarrow> engine" where
  "upsert uid v s = s\<lparr>index := upsert_entry uid v (index s)\<rparr>"

text \<open>
  Modelled from the spec: \<open>EmbeddingIndex.nearest\<close> (4.3), missing with \<open>server\<close>: the
  hits in descending score, an earlier creation timestamp first among equal scores, at
  most \<open>k\<close> of them.
\<close>

definition created_of :: "engine \<Rightarrow> string \<Rightarrow> nat" where
  "created_of s uid = (case get_unit s uid of Inl e \<Rightarrow> 0 | Inr u \<Rightarrow> created_at u)"

definition ranks_before :: "engine \<Rightarrow> string \<times> real \<Rightarrow> string \<times> real \<Rightarrow> bool" where
  "ranks_before s h1 h2 =
     (snd h2 < snd h1 \<or> (snd h1 = snd h2 \<and> created_of s (fst h1) \<le> created_of s (fst h2)))"

fun insert_hit :: "engine \<Rightarrow> string \<times> real \<Rightarrow> (string \<times> real) list \<Rightarrow> (string \<times> real) list" where
  "insert_hit s h [] = [h]"
| "insert_hit s h (x # xs) =
     (if ranks_before s x h then x # insert_hit s h xs else h # x # xs)"

definition nearest ::
  "(pyfloat list \<Rightarrow> pyfloat list \<Rightarrow> real) \<Rightarrow> engine \<Rightarrow> pyfloat list \<Rightarrow> nat
     \<Rightarrow> (string \<times> real) list" where
  "nearest sim s q k =
     take k (foldl (\<lambda>acc (uid, v). insert_hit s (uid, sim q v) acc) [] (index s))"

text \<open>
  Modelled from the spec: \<open>ingest_hypothesis\<close> (4.4), missing with \<open>server\<close>: replay of a
  recorded key first; otherwise the content is checked, the provider is called, and the
  unit, its vector and the key are committed together.
\<close>

definition ingest_hypothesis ::
  "string \<Rightarrow> nat \<Rightarrow> pyfloat list option \<Rightarrow> string \<Rightarrow> string option \<Rightarrow> string \<Rightarrow> engine
     \<Rightarrow> (error + AtomicUnit) \<times> engine" where
  "ingest_hypothesis fresh_uuid now embedded c src key s =
     (case map_of (ingest_keys s) key of
        Some uid \<Rightarrow> (get_unit s uid, s)
      | None \<Rightarrow>
          if c = [] then (Inl (ValidationError [''content'']), s)
          else
            (case embedded of
               None \<Rightarrow> (Inl EmbeddingProviderError, s\<lparr>embed_calls := embed_calls s + 1\<rparr>)
             | Some v \<Rightarrow>
                 (case put fresh_uuid now c src None v
                         (s\<lparr>embed_calls := embed_calls s + 1\<rparr>) of
                    (u, s1) \<Rightarrow>
                      (Inr u,
                       (upsert (unit_id u) v s1)
                         \<lparr>ingest_keys := ingest_keys s1 @ [(key, unit_id u)]\<rparr>))))"

text \<open>
  Modelled from the spec: \<open>connect_propositions\<close> (4.5), missing with \<open>server\<close>: replay
  of a recorded key first; otherwise both ids must exist, then the relation type must be
  one of the five kinds, then the ids must differ; the edge and the key are committed
  together. The result is the relation with its two endpoint units.
\<close>

definition connect_propositions ::
  "nat \<Rightarrow> string \<Rightarrow> string \<Rightarrow> string \<Rightarrow> string \<Rightarrow> string \<Rightarrow> engine
     \<Rightarrow> (error + Relation \<times> AtomicUnit \<times> AtomicUnit) \<times> engine" where
  "connect_propositions now id_a id_b relation_type why key s =
     (case map_of (connect_keys s) key of
        Some i \<Rightarrow>
          (if i < length (relations s) then
             (let r = relations s ! i in
              case get_unit s (source_id r) of
                Inl e \<Rightarrow> (Inl e, s)
              | Inr a \<Rightarrow>
                  (case get_unit s (target_id r) of
                     Inl e \<Rightarrow> (Inl e, s)
                   | Inr b \<Rightarrow> (Inr (r, a, b), s)))
           else (Inl (NotFoundError key), s))
      | None \<Rightarrow>
          (case get_unit s id_a of
             Inl e \<Rightarrow> (Inl e, s)
           | Inr a \<Rightarrow>
               (case get_unit s id_b of
                  Inl e \<Rightarrow> (Inl e, s)
                | Inr b \<Rightarrow>
                    if relation_type \<notin> set RelationType
                    then (Inl (ValidationError [''relation_type'']), s)
                    else if id_a = id_b
                    then (Inl (ValidationError [''id_b'']), s)
                    else
                      (case add_edge now id_a id_b relation_type why s of
                         (Inl e, s1) \<Rightarrow> (Inl e, s1)
                       | (Inr r, s1) \<Rightarrow>
                           (Inr (r, a, b),
                            s1\<lparr>connect_keys :=
                                 connect_keys s1 @ [(key, length (relations s))]\<rparr>)))))"

text \<open>
  Modelled from the spec: \<open>semantic_search\<close> (4.6), missing with \<open>server\<close>. A hit whose
  unit is not in the store is dropped.
\<close>

definition semantic_search ::
  "(pyfloat list \<Rightarrow> pyfloat list \<Rightarrow> real) \<Rightarrow> pyfloat list option \<Rightarrow> string \<Rightarrow> int \<Rightarrow> engine
     \<Rightarrow> (error + (AtomicUnit \<times> real) list) \<times> engine" where
  "semantic_search sim embedded query limit s =
     (if limit \<le> 0 then (Inl (ValidationError [''limit'']), s)
      else
        (case embedded of
           None \<Rightarrow> (Inl EmbeddingProviderError, s\<lparr>embed_calls := embed_calls s + 1\<rparr>)
         | Some q \<Rightarrow>
             (Inr (List.map_filter
                     (\<lambda>(uid, sc). case get_unit s uid of
                                     Inl e \<Rightarrow> None
                                   | Inr u \<Rightarrow> Some (u, sc))
                     (nearest sim s q (nat limit))),
              s\<lparr>embed_calls := embed_calls s + 1\<rparr>)))"

text \<open>
  Modelled from the spec: \<open>find_contradictions\<close> (4.8), missing with \<open>server\<close>: the 20
  nearest units, those scoring above 0.5 retained, and for each retained candidate the
  first stored edge of type refutes or contradicts that joins it, in either direction,
  to another retained unit. The wording of the explanation is not specified beyond that
  it refers to the reasoning of the relation; here it quotes it.
\<close>

definition opposing_edge :: "string list \<Rightarrow> string \<Rightarrow> Relation \<Rightarrow> bool" where
  "opposing_edge retained uid r =
     ((rel_type r = ''refutes'' \<or> rel_type r = ''contradicts'') \<and>
      ((source_id r = uid \<and> target_id r \<noteq> uid \<and> target_id r \<in> set retained) \<or>
       (target_id r = uid \<and> source_id r \<noteq> uid \<and> source_id r \<in> set retained)))"

definition explain :: "Relation \<Rightarrow> string" where
  "explain r = ''Linked by a '' @ rel_type r @ '' relation: '' @ reasoning r"

definition conflict_for :: "engine \<Rightarrow> string list \<Rightarrow> string \<Rightarrow> ConflictResult option" where
  "conflict_for s retained uid =
     (case get_unit s uid of
        Inl e \<Rightarrow> None
      | Inr u \<Rightarrow>
          (case find (opposing_edge retained uid) (relations s) of
             None \<Rightarrow> None
           | Some r \<Rightarrow>
               Some \<lparr> conflicting_unit = u, relation = Some r, explanation = explain r \<rparr>))"

definition retained_candidates ::
  "(pyfloat list \<Rightarrow> pyfloat list \<Rightarrow> real) \<Rightarrow> engine \<Rightarrow> pyfloat list \<Rightarrow> string list" where
  "retained_candidates sim s q = map fst (filter (\<lambda>h. 1 / 2 < snd h) (nearest sim s q 20))"

definition find_contradictions ::
  "(pyfloat list \<Rightarrow> pyfloat list \<Rightarrow> real) \<Rightarrow> pyfloat list option \<Rightarrow> string \<Rightarrow> engine
     \<Rightarrow> (error + ConflictResponse) \<times> engine" where
  "find_contradictions sim embedded cl s =
     (if cl = [] then (Inl (ValidationError [''claim'']), s)
      else
        (case embedded of
           None \<Rightarrow> (Inl EmbeddingProviderError, s\<lparr>embed_calls := embed_calls s + 1\<rparr>)
         | Some q \<Rightarrow>
             (let retained = retained_candidates sim s q;
                  cs = List.map_filter (conflict_for s retained) retained
              in (Inr \<lparr> claim = cl, conflicts_found = (cs \<noteq> []), conflicts = cs,
                         available_actions = [] \<rparr>,
                  s\<lparr>embed_calls := embed_calls s + 1\<rparr>))))"

text \<open>
  Modelled from the spec: \<open>RelationGraph.edges_from\<close> and \<open>edges_to\<close> (4.2), missing
  with \<open>server\<close>, and the order in which the traversal explores the edges leaving a
  unit: by creation timestamp, ascending.
\<close>

definition edges_from :: "Relation list \<Rightarrow> string \<Rightarrow> Relation list" where
  "edges_from rels uid = filter (\<lambda>r. source_id r = uid) rels"

definition edges_to :: "Relation list \<Rightarrow> string \<Rightarrow> Relation list" where
  "edges_to rels uid = filter (\<lambda>r. target_id r = uid) rels"

definition ordered_edges :: "Relation list \<Rightarrow> string \<Rightarrow> Relation list" where
  "ordered_edges rels uid = sort_key rel_created_at (edges_from rels uid)"

text \<open>
  Modelled from the spec: the breadth-first search of \<open>find_scientific_lineage\<close> (4.7,
  step 2), missing with \<open>server\<close>: edges are followed from source to target, a unit is
  entered at most once, and the queue holds each reached unit with the relations walked
  to it. \<open>unseen\<close> keeps, of the edges leaving a unit, the first one to each unit not
  reached yet.
\<close>

fun unseen :: "string list \<Rightarrow> Relation list \<Rightarrow> Relation list" where
  "unseen seen [] = []"
| "unseen seen (r # rs) =
     (if target_id r \<in> set seen then unseen seen rs
      else r # unseen (target_id r # seen) rs)"

function bfs ::
  "Relation list \<Rightarrow> string \<Rightarrow> (string \<times> Relation list) list \<Rightarrow> string list
     \<Rightarrow> Relation list option" where
  "bfs rels goal [] visited = None"
| "bfs rels goal ((v, walked) # queue) visited =
     (if v = goal then Some walked
      else
        bfs rels goal
          (queue @ map (\<lambda>r. (target_id r, walked @ [r])) (unseen visited (ordered_edges rels v)))
          (visited @ map target_id (unseen visited (ordered_edges rels v))))"
  by pat_completeness auto
termination
proof (relation "measures [\<lambda>(rels, goal, queue, visited). card (target_id ` set rels - set visited),
                           \<lambda>(rels, goal, queue, visited). length queue]", goal_cases)
  case 1
  show ?case by simp
next
  case (2 rels goal v walked queue visited)
  let ?new = "unseen visited (ordered_edges rels v)"
  have sound: "r \<in> set (unseen seen rs) \<Longrightarrow> r \<in> set rs \<and> target_id r \<notin> set seen"
    for r seen rs
    by (induction seen rs rule: unseen.induct) (auto split: if_splits)
  have within: "set (ordered_edges rels v) \<subseteq> set rels"
    by (auto simp: ordered_edges_def edges_from_def)
  show ?case
  proof (cases "?new = []")
    case True
    then show ?thesis by simp
  next
    case False
    then obtain r where r: "r \<in> set ?new"
      by (cases ?new) auto
    with sound [OF r] within
    have "target_id r \<in> target_id ` set rels - set visited"
      and "target_id r \<notin> target_id ` set rels - set (visited @ map target_id ?new)"
      by auto
    then have "target_id ` set rels - set (visited @ map target_id ?new)
        \<subset> target_id ` set rels - set visited"
      by auto
    then have "card (target_id ` set rels - set (visited @ map target_id ?new))
        < card (target_id ` set rels - set visited)"
      by (intro psubset_card_mono) auto
    then show ?thesis by simp
  qed
qed

text \<open>
  Modelled from the spec: the path of \<open>find_scientific_lineage\<close> (4.7, step 3), missing
  with \<open>server\<close>: one step for each unit from start to end, each but the last with the
  relation that leads to the next.
\<close>

fun lineage_steps :: "engine \<Rightarrow> Relation list \<Rightarrow> AtomicUnit \<Rightarrow> error + LineageStep list" where
  "lineage_steps s [] last_unit = Inr [\<lparr> step_unit = last_unit, relation_to_next = None \<rparr>]"
| "lineage_steps s (r # rs) last_unit =
     (case get_unit s (source_id r) of
        Inl e \<Rightarrow> Inl e
      | Inr u \<Rightarrow>
          (case lineage_steps s rs last_unit of
             Inl e \<Rightarrow> Inl e
           | Inr steps \<Rightarrow> Inr (\<lparr> step_unit = u, relation_to_next = Some r \<rparr> # steps)))"

text \<open>
  Modelled from the spec: \<open>find_scientific_lineage\<close> (4.7), missing with \<open>server\<close>: each
  concept is resolved to the top result of a search, then the path is searched for.
\<close>

definition resolve_concept ::
  "(pyfloat list \<Rightarrow> pyfloat list \<Rightarrow> real) \<Rightarrow> pyfloat list option \<Rightarrow> string \<Rightarrow> engine
     \<Rightarrow> (error + AtomicUnit) \<times> engine" where
  "resolve_concept sim embedded concept s =
     (case semantic_search sim embedded concept 1 s of
        (Inl e, s1) \<Rightarrow> (Inl e, s1)
      | (Inr [], s1) \<Rightarrow> (Inl NoMatchFound, s1)
      | (Inr ((u, sc) # rest), s1) \<Rightarrow> (Inr u, s1))"

definition find_scientific_lineage ::
  "(pyfloat list \<Rightarrow> pyfloat list \<Rightarrow> real) \<Rightarrow> pyfloat list option \<Rightarrow> pyfloat list option
     \<Rightarrow> string \<Rightarrow> string \<Rightarrow> engine \<Rightarrow> (error + LineageResponse) \<times> engine" where
  "find_scientific_lineage sim embedded_start embedded_end start end s =
     (case resolve_concept sim embedded_start start s of
        (Inl e, s1) \<Rightarrow> (Inl e, s1)
      | (Inr a, s1) \<Rightarrow>
          (case resolve_concept sim embedded_end end s1 of
             (Inl e, s2) \<Rightarrow> (Inl e, s2)
           | (Inr b, s2) \<Rightarrow>
               (case bfs (relations s2) (unit_id b) [(unit_id a, [])] [unit_id a] of
                  None \<Rightarrow> (Inl NoPathFound, s2)
                | Some walked \<Rightarrow>
                    (case lineage_steps s2 walked b of
                       Inl e \<Rightarrow> (Inl e, s2)
                     | Inr steps \<Rightarrow>
                         (Inr \<lparr> start_concept = start, end_concept = end, path = steps,
                                 path_length = int (length walked),
                                 lineage_actions = [] \<rparr>, s2)))))"

text \<open>
  Modelled from the spec: the calls a driving agent can issue, missing with \<open>server\<close>,
  each with what the outside returns to it, and the engine after a call and after a
  sequence of calls. \<open>get_unit\<close> and \<open>list_units\<close> return a value only.
\<close>

datatype call =
    Ingest string nat "pyfloat list option" string "string option" string
  | Connect nat string string string string string
  | Search "pyfloat list \<Rightarrow> pyfloat list \<Rightarrow> real" "pyfloat list option" string int
  | Lineage "pyfloat list \<Rightarrow> pyfloat list \<Rightarrow> real" "pyfloat list option"
      "pyfloat list option" string string
  | Contradictions "pyfloat list \<Rightarrow> pyfloat list \<Rightarrow> real" "pyfloat list option" string
  | GetUnit string
  | ListUnits nat

fun step :: "call \<Rightarrow> engine \<Rightarrow> engine" where
  "step (Ingest fresh_uuid now embedded c src key) s =
     snd (ingest_hypothesis fresh_uuid now embedded c src key s)"
| "step (Connect now id_a id_b relation_type why key) s =
     snd (connect_propositions now id_a id_b relation_type why key s)"
| "step (Search sim embedded query limit) s =
     snd (semantic_search sim embedded query limit s)"
| "step (Lineage sim embedded_start embedded_end start end) s =
     snd (find_scientific_lineage sim embedded_start embedded_end start end s)"
| "step (Contradictions sim embedded cl) s =
     snd (find_contradictions sim embedded cl s)"
| "step (GetUnit uid) s = s"
| "step (ListUnits limit) s = s"

fun run :: "call list \<Rightarrow> engine \<Rightarrow> engine" where
  "run [] s = s"
| "run (c # cs) s = run cs (step c s)"


section \<open>Concrete inputs\<close>

definition unit_args :: "string option \<Rightarrow> pyfloat option \<Rightarrow> AtomicUnit_args" where
  "unit_args c f = \<lparr> arg_id = None, arg_content = c, arg_source_doi = None,
                     arg_confidence = f, arg_created_at = None, arg_vector = None \<rparr>"

definition relation_args :: "string \<Rightarrow> string \<Rightarrow> string \<Rightarrow> string option \<Rightarrow> Relation_args" where
  "relation_args a b t r = \<lparr> arg_source_id = Some a, arg_target_id = Some b,
                             arg_type = Some t, arg_reasoning = r,
                             arg_rel_created_at = None \<rparr>"

definition water :: AtomicUnit where
  "water = \<lparr> unit_id = ''u1'', content = ''Water boils'', source_doi = None,
             confidence = Finite 1, created_at = 7, vector = [Finite 1, Finite 0] \<rparr>"

definition water_engine :: engine where
  "water_engine = \<lparr> units = [water], relations = [],
                     index = [(''u1'', [Finite 1, Finite 0])],
                     ingest_keys = [(''k1'', ''u1'')], connect_keys = [],
                     embed_calls = 1 \<rparr>"

definition smaller :: AtomicUnit where
  "smaller = \<lparr> unit_id = ''u2'', content = ''Small models can win'', source_doi = None,
               confidence = Finite 1, created_at = 8, vector = [Finite 0, Finite 1] \<rparr>"

definition disputes :: Relation where
  "disputes = \<lparr> source_id = ''u2'', target_id = ''u1'', rel_type = ''contradicts'',
                reasoning = ''benchmarks disagree'', rel_created_at = 9 \<rparr>"

definition dispute_engine :: engine where
  "dispute_engine = \<lparr> units = [water, smaller], relations = [disputes],
                       index = [(''u1'', [Finite 1, Finite 0]), (''u2'', [Finite 0, Finite 1])],
                       ingest_keys = [(''k1'', ''u1''), (''k2'', ''u2'')],
                       connect_keys = [(''c1'', 0)], embed_calls = 2 \<rparr>"

definition water_conflict :: ConflictResult where
  "water_conflict = \<lparr> conflicting_unit = water, relation = Some disputes,
                       explanation = ''Linked by a contradicts relation: benchmarks disagree'' \<rparr>"

definition smaller_conflict :: ConflictResult where
  "smaller_conflict = \<lparr> conflicting_unit = smaller, relation = Some disputes,
                         explanation = ''Linked by a contradicts relation: benchmarks disagree'' \<rparr>"

definition dispute_response :: ConflictResponse where
  "dispute_response = \<lparr> claim = ''model size'', conflicts_found = True,
                         conflicts = [water_conflict, smaller_conflict],
                         available_actions = [] \<rparr>"

section \<open>Properties of the data models\<close>

lemma in_unit_interval_iff: "in_unit_interval x \<longleftrightarrow> float_ge x 0 \<and> float_le x 1"
  by (cases x) auto

lemma set_RelationType:
  "set RelationType = {''supports'', ''refutes'', ''extends'', ''implies'', ''contradicts''}"
  by (simp add: RelationType_def)

text \<open>
  C2. A supplied confidence outside \<open>[0,1]\<close> makes the construction of an AtomicUnit fail
  with a validation error that names the field; a supplied confidence inside \<open>[0,1]\<close> is
  accepted and kept; a confidence left out becomes exactly \<open>1.0\<close>.
\<close>

theorem AtomicUnit_confidence_range:
  "(arg_confidence args = Some x \<and> \<not> in_unit_interval x \<longrightarrow>
      (\<exists>fs. AtomicUnit_new u n args = Inl (ValidationError fs) \<and> ''confidence'' \<in> set fs))
   \<and> (arg_confidence args = Some x \<and> in_unit_interval x \<and> arg_content args = Some c \<longrightarrow>
      (\<exists>a. AtomicUnit_new u n args = Inr a \<and> confidence a = x))
   \<and> (arg_confidence args = None \<and> arg_content args = Some c \<longrightarrow>
      (\<exists>a. AtomicUnit_new u n args = Inr a \<and> confidence a = Finite 1))"
  by (auto simp: AtomicUnit_new_def validate_confidence_def required_def in_unit_interval_iff
      split: option.splits sum.splits)

theorem AtomicUnit_confidence_range_witness:
  "(\<exists>fs. AtomicUnit_new ''u1'' 7 (unit_args (Some ''Water boils'') (Some (Finite (3/2))))
           = Inl (ValidationError fs) \<and> ''confidence'' \<in> set fs)
   \<and> (\<exists>a. AtomicUnit_new ''u1'' 7 (unit_args (Some ''Water boils'') (Some (Finite (1/2))))
           = Inr a \<and> confidence a = Finite (1/2))
   \<and> (\<exists>a. AtomicUnit_new ''u1'' 7 (unit_args (Some ''Water boils'') None) = Inr a
          \<and> confidence a = Finite 1)"
  using
    AtomicUnit_confidence_range [of "unit_args (Some ''Water boils'') (Some (Finite (3/2)))"
      "Finite (3/2)" "''u1''" 7 "''Water boils''"]
    AtomicUnit_confidence_range [of "unit_args (Some ''Water boils'') (Some (Finite (1/2)))"
      "Finite (1/2)" "''u1''" 7 "''Water boils''"]
    AtomicUnit_confidence_range [of "unit_args (Some ''Water boils'') None"
      "Finite 1" "''u1''" 7 "''Water boils''"]
  by (simp add: unit_args_def)

text \<open>
  C3. When a relation type is supplied, the construction of a Relation reports the field
  \<open>type\<close> in a validation error exactly when the value is none of supports, refutes,
  extends, implies, contradicts; with the other required fields supplied, a relation is
  produced exactly when the type is one of the five.
\<close>

theorem Relation_type_literal:
  "(arg_type args = Some t \<longrightarrow>
      ((\<exists>fs. Relation_new n args = Inl (ValidationError fs) \<and> ''type'' \<in> set fs) \<longleftrightarrow>
       t \<notin> {''supports'', ''refutes'', ''extends'', ''implies'', ''contradicts''}))
   \<and> (arg_type args = Some t \<and> arg_source_id args = Some a \<and> arg_target_id args = Some b \<and>
      arg_reasoning args = Some r \<longrightarrow>
      ((\<exists>rel. Relation_new n args = Inr rel \<and> rel_type rel = t) \<longleftrightarrow>
       t \<in> {''supports'', ''refutes'', ''extends'', ''implies'', ''contradicts''}))"
  unfolding set_RelationType [symmetric]
  by (auto simp: Relation_new_def validate_type_def required_def
      split: option.splits sum.splits)

theorem Relation_type_literal_witness:
  "(\<exists>fs. Relation_new 3 (relation_args ''a'' ''b'' ''causes'' (Some ''because''))
           = Inl (ValidationError fs) \<and> ''type'' \<in> set fs)
   \<and> (\<exists>rel. Relation_new 3 (relation_args ''a'' ''b'' ''refutes'' (Some ''because''))
           = Inr rel \<and> rel_type rel = ''refutes'')"
  using
    Relation_type_literal [of "relation_args ''a'' ''b'' ''causes'' (Some ''because'')"
      "''causes''" 3 "''a''" "''b''" "''because''"]
    Relation_type_literal [of "relation_args ''a'' ''b'' ''refutes'' (Some ''because'')"
      "''refutes''" 3 "''a''" "''b''" "''because''"]
  by (simp add: relation_args_def)

text \<open>
  C5, as the claim states it, fails: a Relation constructed with the empty string as its
  reasoning is accepted.
\<close>

theorem Relation_empty_reasoning_accepted:
  "Relation_new 3 (relation_args ''a'' ''b'' ''supports'' (Some [])) =
     Inr \<lparr> source_id = ''a'', target_id = ''b'', rel_type = ''supports'', reasoning = [],
           rel_created_at = 3 \<rparr>"
  by (simp add: Relation_new_def relation_args_def required_def validate_type_def
      RelationType_def default_to_def)

text \<open>
  C5, amended. The reasoning of a Relation is required but may be empty: a construction
  without reasoning fails with a validation error that names the field, and a
  construction with any reasoning string, the other fields being valid, succeeds and
  the relation carries that string.
\<close>

theorem Relation_reasoning_required:
  "(arg_reasoning args = None \<longrightarrow>
      (\<exists>fs. Relation_new n args = Inl (ValidationError fs) \<and> ''reasoning'' \<in> set fs))
   \<and> (arg_reasoning args = Some r \<and> arg_source_id args = Some a \<and> arg_target_id args = Some b \<and>
      arg_type args = Some t \<and> t \<in> set RelationType \<longrightarrow>
      (\<exists>rel. Relation_new n args = Inr rel \<and> reasoning rel = r))"
  by (auto simp: Relation_new_def validate_type_def required_def
      split: option.splits sum.splits)

theorem Relation_reasoning_required_witness:
  "(\<exists>fs. Relation_new 3 (relation_args ''a'' ''b'' ''supports'' None)
           = Inl (ValidationError fs) \<and> ''reasoning'' \<in> set fs)
   \<and> (\<exists>rel. Relation_new 3 (relation_args ''a'' ''b'' ''supports'' (Some [])) = Inr rel
         \<and> reasoning rel = [])"
  using
    Relation_reasoning_required [of "relation_args ''a'' ''b'' ''supports'' None"
      3 "[]" "''a''" "''b''" "''supports''"]
    Relation_reasoning_required [of "relation_args ''a'' ''b'' ''supports'' (Some [])"
      3 "[]" "''a''" "''b''" "''supports''"]
  by (simp add: relation_args_def RelationType_def)

text \<open>
  C8. For every unit id, \<open>get_unit_actions\<close> returns four actions in the order
  connect_propositions, semantic_search, find_contradictions, get_unit; the tool names
  and the descriptions are the same for any two ids; the suggested arguments are
  \<open>{"id_a": id}\<close> for the first, \<open>{"unit_id": id}\<close> for the last and none for the two in
  between.
\<close>

theorem get_unit_actions_static:
  "map tool (get_unit_actions uid) =
     [''connect_propositions'', ''semantic_search'', ''find_contradictions'', ''get_unit'']
   \<and> map description (get_unit_actions uid) =
     [''Link this unit to another proposition'', ''Find related concepts'',
      ''Check for conflicts with this claim'', ''Get full details of this unit'']
   \<and> map suggested_args (get_unit_actions uid) =
     [Some [(''id_a'', uid)], None, None, Some [(''unit_id'', uid)]]
   \<and> map tool (get_unit_actions uid) = map tool (get_unit_actions uid')
   \<and> map description (get_unit_actions uid) = map description (get_unit_actions uid')"
  by (simp add: get_unit_actions_def)

text \<open>
  C10. The embedding vector is optional: an AtomicUnit constructed without a vector, with
  a content and with a confidence left out or inside \<open>[0,1]\<close>, is accepted and its vector
  is the empty list.
\<close>

theorem AtomicUnit_vector_optional:
  assumes "arg_vector args = None"
      and "arg_content args = Some c"
      and "case arg_confidence args of None \<Rightarrow> True | Some x \<Rightarrow> in_unit_interval x"
  shows "\<exists>a. AtomicUnit_new u n args = Inr a \<and> vector a = []"
  using assms
  by (auto simp: AtomicUnit_new_def validate_confidence_def required_def in_unit_interval_iff
      default_to_def split: option.splits sum.splits)

theorem AtomicUnit_vector_optional_witness:
  "\<exists>a. AtomicUnit_new ''u1'' 7 (unit_args (Some ''Water boils'') (Some (Finite (1/2)))) = Inr a
       \<and> vector a = []"
  using AtomicUnit_vector_optional [of "unit_args (Some ''Water boils'') (Some (Finite (1/2)))"
      "''Water boils''" "''u1''" 7]
  by (simp add: unit_args_def)

section \<open>Properties of the engine\<close>

lemma find_append:
  "find P (xs @ ys) = (case find P xs of None \<Rightarrow> find P ys | Some x \<Rightarrow> Some x)"
  by (induction xs) auto

lemma get_unit_fresh_append:
  "unit_id u \<notin> unit_id ` set us \<Longrightarrow> find (\<lambda>x. unit_id x = unit_id u) (us @ [u]) = Some u"
proof -
  assume "unit_id u \<notin> unit_id ` set us"
  then have "find (\<lambda>x. unit_id x = unit_id u) us = None"
    by (auto simp: find_None_iff image_iff)
  then show ?thesis
    by (simp add: find_append)
qed

lemma ingest_replay:
  "map_of (ingest_keys s) k = Some i \<Longrightarrow>
   ingest_hypothesis uid now emb c src k s = (get_unit s i, s)"
  by (simp add: ingest_hypothesis_def)

lemma ingest_create:
  "map_of (ingest_keys s) k = None \<Longrightarrow> c \<noteq> [] \<Longrightarrow>
   ingest_hypothesis uid now (Some v) c src k s =
     (Inr \<lparr> unit_id = uid, content = c, source_doi = src, confidence = Finite 1,
            created_at = now, vector = v \<rparr>,
      s\<lparr> units := units s @ [\<lparr> unit_id = uid, content = c, source_doi = src,
                               confidence = Finite 1, created_at = now, vector = v \<rparr>],
         index := upsert_entry uid v (index s),
         ingest_keys := ingest_keys s @ [(k, uid)],
         embed_calls := embed_calls s + 1 \<rparr>)"
  by (simp add: ingest_hypothesis_def put_def upsert_def default_to_def Let_def)

lemma ingest_fresh_cases:
  assumes "map_of (ingest_keys s) k = None"
      and "ingest_hypothesis uid now emb c src k s = (Inr u, s1)"
  shows "c \<noteq> [] \<and> (\<exists>v. emb = Some v)"
  using assms by (auto simp: ingest_hypothesis_def split: if_splits option.splits)

lemma first_ingest:
  "ingest_hypothesis ''u1'' 7 (Some [Finite 1, Finite 0]) ''Water boils'' None ''k1''
     empty_engine = (Inr water, water_engine)"
  by (simp add: ingest_hypothesis_def empty_engine_def put_def upsert_def default_to_def
      water_def water_engine_def Let_def)

lemma ingest_units:
  "units (snd (ingest_hypothesis uid now emb c src k s)) = units s
   \<or> (\<exists>x. content x \<noteq> [] \<and> units (snd (ingest_hypothesis uid now emb c src k s)) = units s @ [x])"
  by (auto simp: ingest_hypothesis_def put_def upsert_def Let_def split: option.splits)

lemma ingest_relations:
  "relations (snd (ingest_hypothesis uid now emb c src k s)) = relations s"
  by (auto simp: ingest_hypothesis_def put_def upsert_def Let_def split: option.splits)

lemma connect_units:
  "units (snd (connect_propositions now a b ty why k s)) = units s"
  by (auto simp: connect_propositions_def add_edge_def Let_def
      split: option.splits sum.splits prod.splits if_splits)

lemma connect_relations:
  "relations (snd (connect_propositions now a b ty why k s)) = relations s
   \<or> (\<exists>r. relations (snd (connect_propositions now a b ty why k s)) = relations s @ [r])"
  by (auto simp: connect_propositions_def add_edge_def Let_def
      split: option.splits sum.splits prod.splits if_splits)

lemma search_stores:
  "units (snd (semantic_search sim emb q limit s)) = units s
   \<and> relations (snd (semantic_search sim emb q limit s)) = relations s"
  by (auto simp: semantic_search_def split: option.splits)

lemma contradictions_stores:
  "units (snd (find_contradictions sim emb cl s)) = units s
   \<and> relations (snd (find_contradictions sim emb cl s)) = relations s"
  by (auto simp: find_contradictions_def Let_def split: option.splits)

lemma resolve_state:
  "snd (resolve_concept sim emb c s) = snd (semantic_search sim emb c 1 s)"
  by (auto simp: resolve_concept_def split: prod.splits sum.splits list.splits)

lemma lineage_stores:
  "units (snd (find_scientific_lineage sim e1 e2 c1 c2 s)) = units s
   \<and> relations (snd (find_scientific_lineage sim e1 e2 c1 c2 s)) = relations s"
proof -
  let ?s1 = "snd (resolve_concept sim e1 c1 s)"
  let ?s2 = "snd (resolve_concept sim e2 c2 ?s1)"
  have "snd (find_scientific_lineage sim e1 e2 c1 c2 s) = ?s1
      \<or> snd (find_scientific_lineage sim e1 e2 c1 c2 s) = ?s2"
    by (auto simp: find_scientific_lineage_def simp del: bfs.simps
        split: prod.splits sum.splits option.splits)
  moreover have "units ?s1 = units s \<and> relations ?s1 = relations s"
    by (simp add: resolve_state search_stores)
  moreover have "units ?s2 = units ?s1 \<and> relations ?s2 = relations ?s1"
    by (simp add: resolve_state search_stores)
  ultimately show ?thesis
    by auto
qed

lemma step_units: "\<exists>new. units (step c s) = units s @ new \<and> (\<forall>x \<in> set new. content x \<noteq> [])"
proof (cases c)
  case (Ingest uid now emb c' src k)
  with ingest_units [of uid now emb c' src k s] show ?thesis
    by (elim disjE exE) (rule exI [of _ "[]"], simp, rule_tac x = "[x]" in exI, simp)
qed (simp_all add: connect_units search_stores contradictions_stores lineage_stores)

lemma step_relations: "\<exists>new. relations (step c s) = relations s @ new"
proof (cases c)
  case (Connect now a b ty why k)
  with connect_relations [of now a b ty why k s] show ?thesis
    by auto
qed (simp_all add: ingest_relations search_stores contradictions_stores lineage_stores)

lemma run_units: "\<exists>new. units (run cs s) = units s @ new \<and> (\<forall>x \<in> set new. content x \<noteq> [])"
proof (induction cs arbitrary: s)
  case Nil
  show ?case by simp
next
  case (Cons c cs)
  from step_units [of c s] obtain n1
    where n1: "units (step c s) = units s @ n1" "\<forall>x \<in> set n1. content x \<noteq> []" by blast
  from Cons.IH [of "step c s"] obtain n2
    where n2: "units (run cs (step c s)) = units (step c s) @ n2" "\<forall>x \<in> set n2. content x \<noteq> []"
    by blast
  show ?case
    by (rule exI [of _ "n1 @ n2"]) (use n1 n2 in auto)
qed

lemma run_relations: "\<exists>new. relations (run cs s) = relations s @ new"
proof (induction cs arbitrary: s)
  case Nil
  show ?case by simp
next
  case (Cons c cs)
  from step_relations [of c s] obtain n1 where "relations (step c s) = relations s @ n1" by blast
  moreover from Cons.IH [of "step c s"] obtain n2
    where "relations (run cs (step c s)) = relations (step c s) @ n2" by blast
  ultimately show ?case by simp
qed

lemma step_ingest_keys:
  assumes "map_of (ingest_keys s) k = Some i"
  shows "map_of (ingest_keys (step c s)) k = Some i"
proof (cases c)
  case (Ingest uid now emb c' src k')
  with assms show ?thesis
    by (auto simp: ingest_hypothesis_def put_def upsert_def Let_def map_add_def
        split: option.splits)
next
  case (Connect now a b ty why k')
  with assms show ?thesis
    by (auto simp: connect_propositions_def add_edge_def Let_def
        split: option.splits sum.splits prod.splits if_splits)
next
  case (Search sim emb q limit)
  with assms show ?thesis
    by (auto simp: semantic_search_def split: option.splits)
next
  case (Lineage sim e1 e2 c1 c2)
  let ?s1 = "snd (resolve_concept sim e1 c1 s)"
  let ?s2 = "snd (resolve_concept sim e2 c2 ?s1)"
  have "snd (find_scientific_lineage sim e1 e2 c1 c2 s) = ?s1
      \<or> snd (find_scientific_lineage sim e1 e2 c1 c2 s) = ?s2"
    by (auto simp: find_scientific_lineage_def simp del: bfs.simps
        split: prod.splits sum.splits option.splits)
  moreover have "ingest_keys (snd (semantic_search sim' e q 1 t)) = ingest_keys t" for sim' e q t
    by (auto simp: semantic_search_def split: option.splits)
  ultimately show ?thesis
    using assms Lineage by (auto simp: resolve_state)
next
  case (Contradictions sim emb cl)
  with assms show ?thesis
    by (auto simp: find_contradictions_def Let_def split: option.splits)
qed (use assms in simp_all)

lemma step_get_unit:
  assumes "get_unit s i = Inr u"
  shows "get_unit (step c s) i = Inr u"
proof -
  from step_units [of c s] obtain new where "units (step c s) = units s @ new"
    by blast
  with assms show ?thesis
    by (auto simp: get_unit_def find_append split: option.splits)
qed

lemma run_replays:
  assumes "map_of (ingest_keys s) k = Some i" and "get_unit s i = Inr u"
  shows "map_of (ingest_keys (run cs s)) k = Some i \<and> get_unit (run cs s) i = Inr u"
  using assms
proof (induction cs arbitrary: s)
  case Nil
  then show ?case by simp
next
  case (Cons c cs)
  from Cons.IH [OF step_ingest_keys [OF Cons.prems(1)] step_get_unit [OF Cons.prems(2)]]
  show ?case by simp
qed

text \<open>
  C1. Ingestion is idempotent. Let a call of \<open>ingest_hypothesis\<close> with key \<open>k\<close> and content
  \<open>c\<close> return a unit \<open>u\<close>, the identifier generated for it being new to the store. Then
  any later call with the same key and content, after any sequence of other calls on the
  engine, returns the same unit \<open>u\<close> and leaves the engine as it found it, whatever
  identifier, clock and provider answer it is given: no unit is added and the count of
  embedding calls stays. When the key was not recorded before, the first call added
  exactly the unit \<open>u\<close> to the store and made one embedding call; when it was, the first
  call was a replay itself.
\<close>

theorem ingest_hypothesis_idempotent:
  assumes first: "ingest_hypothesis uid now emb c src k s = (Inr u, s1)"
      and fresh: "uid \<notin> unit_id ` set (units s)"
  shows "ingest_hypothesis uid' now' emb' c src k (run cs s1) = (Inr u, run cs s1)
     \<and> (map_of (ingest_keys s) k = None \<longrightarrow>
          units s1 = units s @ [u] \<and> embed_calls s1 = embed_calls s + 1)
     \<and> (map_of (ingest_keys s) k \<noteq> None \<longrightarrow> s1 = s)"
proof (cases "map_of (ingest_keys s) k")
  case (Some i)
  with first have "get_unit s i = Inr u" and s1: "s1 = s"
    by (auto simp: ingest_replay)
  with Some run_replays [of s1 k i u cs]
  have "ingest_hypothesis uid' now' emb' c src k (run cs s1) = (Inr u, run cs s1)"
    by (simp add: ingest_replay)
  with Some s1 show ?thesis
    by simp
next
  case None
  from ingest_fresh_cases [OF None first] obtain v where c: "c \<noteq> []" and emb: "emb = Some v"
    by blast
  let ?u = "\<lparr> unit_id = uid, content = c, source_doi = src, confidence = Finite 1,
               created_at = now, vector = v \<rparr>"
  from first have u: "u = ?u"
    and s1: "s1 = s\<lparr> units := units s @ [?u], index := upsert_entry uid v (index s),
                     ingest_keys := ingest_keys s @ [(k, uid)],
                     embed_calls := embed_calls s + 1 \<rparr>"
    unfolding emb ingest_create [OF None c] by auto
  have key: "map_of (ingest_keys s1) k = Some uid"
    using None by (simp add: s1 map_add_def)
  have "find (\<lambda>x. unit_id x = uid) (units s @ [?u]) = Some ?u"
    using get_unit_fresh_append [of ?u "units s"] fresh by simp
  then have "get_unit s1 uid = Inr u"
    by (simp add: get_unit_def s1 u)
  with key run_replays [of s1 k uid u cs]
  have "ingest_hypothesis uid' now' emb' c src k (run cs s1) = (Inr u, run cs s1)"
    by (simp add: ingest_replay)
  with None show ?thesis
    by (simp add: s1 u)
qed

lemma second_ingest:
  "run [Ingest ''u2'' 8 (Some [Finite 0, Finite 1]) ''Small models can win'' None ''k2'']
     water_engine
   = \<lparr> units = [water, smaller], relations = [],
       index = [(''u1'', [Finite 1, Finite 0]), (''u2'', [Finite 0, Finite 1])],
       ingest_keys = [(''k1'', ''u1''), (''k2'', ''u2'')], connect_keys = [],
       embed_calls = 2 \<rparr>"
  by (simp add: ingest_hypothesis_def water_engine_def put_def upsert_def default_to_def
      smaller_def Let_def)

theorem ingest_hypothesis_idempotent_witness:
  "ingest_hypothesis ''u1'' 7 (Some [Finite 1, Finite 0]) ''Water boils'' None ''k1''
     empty_engine = (Inr water, water_engine)
   \<and> ingest_hypothesis ''u3'' 9 None ''Water boils'' None ''k1''
       (run [Ingest ''u2'' 8 (Some [Finite 0, Finite 1]) ''Small models can win'' None ''k2'']
          water_engine)
     = (Inr water,
        run [Ingest ''u2'' 8 (Some [Finite 0, Finite 1]) ''Small models can win'' None ''k2'']
          water_engine)
   \<and> units (run [Ingest ''u2'' 8 (Some [Finite 0, Finite 1]) ''Small models can win'' None
                   ''k2''] water_engine) = [water, smaller]
   \<and> units water_engine = units empty_engine @ [water]
   \<and> embed_calls water_engine = embed_calls empty_engine + 1"
proof -
  have key: "map_of (ingest_keys empty_engine) ''k1'' = None"
    by (simp add: empty_engine_def)
  have new: "''u1'' \<notin> unit_id ` set (units empty_engine)"
    by (simp add: empty_engine_def)
  have two: "units (run [Ingest ''u2'' 8 (Some [Finite 0, Finite 1]) ''Small models can win''
                           None ''k2''] water_engine) = [water, smaller]"
    unfolding second_ingest by simp
  from ingest_hypothesis_idempotent [OF first_ingest new, of "''u3''" 9 None
      "[Ingest ''u2'' 8 (Some [Finite 0, Finite 1]) ''Small models can win'' None ''k2'']"]
    key first_ingest two
  show ?thesis
    by (simp del: run.simps step.simps)
qed

text \<open>
  C7. No call edits or deletes a stored unit or relation: after any sequence of calls,
  the units that were stored before are the first units of the store, unchanged and in
  the same order, and so are the relations; a call can only append.
\<close>

theorem stored_records_immutable:
  "take (length (units s)) (units (run cs s)) = units s
   \<and> take (length (relations s)) (relations (run cs s)) = relations s"
proof -
  from run_units [of cs s] obtain n1 where "units (run cs s) = units s @ n1" by blast
  moreover from run_relations [of cs s] obtain n2 where "relations (run cs s) = relations s @ n2"
    by blast
  ultimately show ?thesis by simp
qed

text \<open>
  C6, as the claim states it, fails: a call of \<open>connect_propositions\<close> with
  \<open>id_a = id_b\<close> naming no stored unit fails with a not-found error, not with a
  validation error.
\<close>

theorem self_loop_missing_unit:
  "connect_propositions 5 ''ghost'' ''ghost'' ''supports'' ''because'' ''c9'' empty_engine
     = (Inl (NotFoundError ''ghost''), empty_engine)"
  by (simp add: connect_propositions_def empty_engine_def get_unit_def)

lemma get_unit_error: "get_unit s a = Inl e \<Longrightarrow> e = NotFoundError a"
  by (auto simp: get_unit_def split: option.splits)

text \<open>
  C6, amended. A call of \<open>connect_propositions\<close> with \<open>id_a = id_b\<close> never creates an edge:
  it leaves the engine as it was. Under a key not recorded yet it fails, with a
  validation error when the id names a stored unit and with a not-found error that
  names the id otherwise.
\<close>

theorem self_loop_creates_no_edge:
  "snd (connect_propositions now a a ty why k s) = s
   \<and> (map_of (connect_keys s) k = None \<and> get_unit s a = Inr x \<longrightarrow>
        (\<exists>fs. fst (connect_propositions now a a ty why k s) = Inl (ValidationError fs)))
   \<and> (map_of (connect_keys s) k = None \<and> get_unit s a = Inl e \<longrightarrow>
        fst (connect_propositions now a a ty why k s) = Inl (NotFoundError a))"
  by (auto simp: connect_propositions_def Let_def dest: get_unit_error
      split: option.splits sum.splits)

theorem self_loop_creates_no_edge_witness:
  "snd (connect_propositions 11 ''u1'' ''u1'' ''refutes'' ''because'' ''c9'' water_engine)
     = water_engine
   \<and> fst (connect_propositions 11 ''u1'' ''u1'' ''refutes'' ''because'' ''c9'' water_engine)
     = Inl (ValidationError [''id_b''])
   \<and> fst (connect_propositions 11 ''u3'' ''u3'' ''refutes'' ''because'' ''c9'' water_engine)
     = Inl (NotFoundError ''u3'')"
proof -
  have key: "map_of (connect_keys water_engine) ''c9'' = None"
    by (simp add: water_engine_def)
  have a: "get_unit water_engine ''u1'' = Inr water"
    by (simp add: water_engine_def get_unit_def water_def)
  have b: "get_unit water_engine ''u3'' = Inl (NotFoundError ''u3'')"
    by (simp add: water_engine_def get_unit_def water_def)
  have c: "fst (connect_propositions 11 ''u1'' ''u1'' ''refutes'' ''because'' ''c9'' water_engine)
     = Inl (ValidationError [''id_b''])"
    by (simp add: connect_propositions_def key a RelationType_def)
  from self_loop_creates_no_edge [of 11 "''u1''" "''refutes''" "''because''" "''c9''" water_engine water]
    self_loop_creates_no_edge [of 11 "''u3''" "''refutes''" "''because''" "''c9''" water_engine _ "NotFoundError ''u3''"]
    key a b c
  show ?thesis by simp
qed

lemma conflict_for_annotated:
  assumes "conflict_for s retained uid = Some c"
  shows "\<exists>r. relation c = Some r \<and> r \<in> set (relations s)
           \<and> (rel_type r = ''refutes'' \<or> rel_type r = ''contradicts'')
           \<and> (source_id r = unit_id (conflicting_unit c) \<or> target_id r = unit_id (conflicting_unit c))
           \<and> explanation c = explain r"
proof -
  from assms obtain u r where u: "get_unit s uid = Inr u"
    and r: "find (opposing_edge retained uid) (relations s) = Some r"
    and c: "c = \<lparr> conflicting_unit = u, relation = Some r, explanation = explain r \<rparr>"
    by (auto simp: conflict_for_def split: sum.splits option.splits)
  from u have "unit_id u = uid"
    by (auto simp: get_unit_def find_Some_iff split: option.splits)
  moreover from r have "r \<in> set (relations s)" and "opposing_edge retained uid r"
    by (auto simp: find_Some_iff)
  ultimately show ?thesis
    by (auto simp: c opposing_edge_def)
qed

lemma explain_quotes: "sublist (reasoning r) (explain r)"
  unfolding explain_def sublist_def
  by (rule exI [of _ "''Linked by a '' @ rel_type r @ '' relation: ''"], rule exI [of _ "[]"]) simp

text \<open>
  C9. Every conflict that \<open>find_contradictions\<close> reports carries a relation; that
  relation is a stored edge of type refutes or contradicts with the conflicting unit at
  one of its ends, and the explanation of the conflict contains the reasoning text of
  that relation.
\<close>

theorem conflicts_carry_relation:
  assumes "fst (find_contradictions sim emb cl s) = Inr resp"
      and "c \<in> set (conflicts resp)"
  shows "\<exists>r. relation c = Some r \<and> r \<in> set (relations s)
           \<and> (rel_type r = ''refutes'' \<or> rel_type r = ''contradicts'')
           \<and> (source_id r = unit_id (conflicting_unit c) \<or> target_id r = unit_id (conflicting_unit c))
           \<and> sublist (reasoning r) (explanation c)"
proof -
  from assms obtain retained uid where "conflict_for s retained uid = Some c"
    by (auto simp: find_contradictions_def Let_def List.map_filter_def
        split: if_splits option.splits)
  from conflict_for_annotated [OF this] show ?thesis
    using explain_quotes by auto
qed

lemma dispute_nearest:
  "nearest (\<lambda>q v. 3 / 4) dispute_engine [Finite 1, Finite 1] 20 = [(''u1'', 3 / 4), (''u2'', 3 / 4)]"
  by (simp add: nearest_def dispute_engine_def ranks_before_def created_of_def get_unit_def
      water_def smaller_def)

lemma dispute_found:
  "fst (find_contradictions (\<lambda>q v. 3 / 4) (Some [Finite 1, Finite 1]) ''model size''
         dispute_engine) = Inr dispute_response"
proof -
  have ret: "retained_candidates (\<lambda>q v. 3 / 4) dispute_engine [Finite 1, Finite 1]
               = [''u1'', ''u2'']"
    by (simp add: retained_candidates_def dispute_nearest)
  have c1: "conflict_for dispute_engine [''u1'', ''u2''] ''u1'' = Some water_conflict"
    by (simp add: conflict_for_def get_unit_def opposing_edge_def explain_def
        dispute_engine_def water_def smaller_def disputes_def water_conflict_def)
  have c2: "conflict_for dispute_engine [''u1'', ''u2''] ''u2'' = Some smaller_conflict"
    by (simp add: conflict_for_def get_unit_def opposing_edge_def explain_def
        dispute_engine_def water_def smaller_def disputes_def smaller_conflict_def)
  show ?thesis
    by (simp add: find_contradictions_def Let_def ret List.map_filter_def c1 c2
        dispute_response_def)
qed

theorem conflicts_carry_relation_witness:
  "fst (find_contradictions (\<lambda>q v. 3 / 4) (Some [Finite 1, Finite 1]) ''model size''
         dispute_engine) = Inr dispute_response
   \<and> water_conflict \<in> set (conflicts dispute_response)
   \<and> (\<exists>r. relation water_conflict = Some r \<and> r \<in> set (relations dispute_engine)
           \<and> (rel_type r = ''refutes'' \<or> rel_type r = ''contradicts'')
           \<and> (source_id r = unit_id (conflicting_unit water_conflict)
               \<or> target_id r = unit_id (conflicting_unit water_conflict))
           \<and> sublist (reasoning r) (explanation water_conflict))"
proof -
  have mem: "water_conflict \<in> set (conflicts dispute_response)"
    by (simp add: dispute_response_def)
  from conflicts_carry_relation [OF dispute_found mem] dispute_found mem
  show ?thesis by simp
qed

text \<open>
  C4, as the claim states it, fails: an AtomicUnit constructed with the empty string as
  its content is accepted.
\<close>

theorem AtomicUnit_empty_content_accepted:
  "AtomicUnit_new ''u1'' 7 (unit_args (Some []) None) =
     Inr \<lparr> unit_id = ''u1'', content = [], source_doi = None, confidence = Finite 1,
           created_at = 7, vector = [] \<rparr>"
  by (simp add: AtomicUnit_new_def unit_args_def required_def validate_confidence_def
      default_to_def)

lemma run_from_empty: "\<forall>x \<in> set (units (run cs empty_engine)). content x \<noteq> []"
  using run_units [of cs empty_engine] by (auto simp: empty_engine_def)

text \<open>
  C4, amended. The content of an AtomicUnit is required, but the model does not check
  that it is non-empty: a construction without content fails with a validation error
  that names the field, and a construction with any content string, the empty one
  included, succeeds when the confidence is valid and keeps that string. The check is
  made at ingestion: \<open>ingest_hypothesis\<close> with empty content under a key not recorded yet
  fails with a validation error and changes nothing, and every unit stored by a sequence
  of calls on the empty engine has non-empty content.
\<close>

theorem AtomicUnit_content_required:
  "(arg_content args = None \<longrightarrow>
      (\<exists>fs. AtomicUnit_new u n args = Inl (ValidationError fs) \<and> ''content'' \<in> set fs))
   \<and> (arg_content args = Some c
       \<and> (case arg_confidence args of None \<Rightarrow> True | Some x \<Rightarrow> in_unit_interval x) \<longrightarrow>
      (\<exists>a. AtomicUnit_new u n args = Inr a \<and> content a = c))
   \<and> (map_of (ingest_keys s) k = None \<longrightarrow>
      ingest_hypothesis u n emb [] src k s = (Inl (ValidationError [''content'']), s))
   \<and> (\<forall>x \<in> set (units (run cs empty_engine)). content x \<noteq> [])"
proof -
  have "arg_content args = None \<longrightarrow>
      (\<exists>fs. AtomicUnit_new u n args = Inl (ValidationError fs) \<and> ''content'' \<in> set fs)"
    by (auto simp: AtomicUnit_new_def required_def split: sum.splits)
  moreover have "arg_content args = Some c
       \<and> (case arg_confidence args of None \<Rightarrow> True | Some x \<Rightarrow> in_unit_interval x) \<longrightarrow>
      (\<exists>a. AtomicUnit_new u n args = Inr a \<and> content a = c)"
    by (auto simp: AtomicUnit_new_def required_def validate_confidence_def in_unit_interval_iff
        split: option.splits)
  moreover have "map_of (ingest_keys s) k = None \<longrightarrow>
      ingest_hypothesis u n emb [] src k s = (Inl (ValidationError [''content'']), s)"
    by (simp add: ingest_hypothesis_def)
  ultimately show ?thesis
    using run_from_empty by blast
qed

theorem AtomicUnit_content_required_witness:
  "(\<exists>fs. AtomicUnit_new ''u1'' 7 (unit_args None None) = Inl (ValidationError fs)
         \<and> ''content'' \<in> set fs)
   \<and> (\<exists>a. AtomicUnit_new ''u1'' 7 (unit_args (Some []) None) = Inr a \<and> content a = [])
   \<and> ingest_hypothesis ''u2'' 9 (Some []) [] None ''k2'' water_engine
       = (Inl (ValidationError [''content'']), water_engine)
   \<and> units (run [Ingest ''u1'' 7 (Some [Finite 1, Finite 0]) ''Water boils'' None ''k1'',
                 Ingest ''u2'' 9 (Some []) [] None ''k2''] empty_engine) = [water]
   \<and> content water \<noteq> []"
proof -
  have key: "map_of (ingest_keys water_engine) ''k2'' = None"
    by (simp add: water_engine_def)
  have ran: "units (run [Ingest ''u1'' 7 (Some [Finite 1, Finite 0]) ''Water boils'' None ''k1'',
                 Ingest ''u2'' 9 (Some []) [] None ''k2''] empty_engine) = [water]"
  proof -
    have s1: "step (Ingest ''u1'' 7 (Some [Finite 1, Finite 0]) ''Water boils'' None ''k1'')
                empty_engine = water_engine"
      by (simp add: first_ingest)
    have s2: "step (Ingest ''u2'' 9 (Some []) [] None ''k2'') water_engine = water_engine"
      by (simp add: ingest_hypothesis_def water_engine_def)
    have "units water_engine = [water]"
      by (simp add: water_engine_def)
    then show ?thesis
      by (simp add: s1 s2 del: step.simps)
  qed
  from AtomicUnit_content_required [of "unit_args None None" "''u1''" 7 "[]" water_engine "''k2''" "Some []" None
        "[Ingest ''u1'' 7 (Some [Finite 1, Finite 0]) ''Water boils'' None ''k1'',
          Ingest ''u2'' 9 (Some []) [] None ''k2'']"]
    AtomicUnit_content_required [of "unit_args (Some []) None" "''u1''" 7 "[]" water_engine "''k2''" "Some []" None "[]"]
    AtomicUnit_content_required [of "unit_args (Some []) None" "''u2''" 9 "[]" water_engine "''k2''" "Some []" None "[]"]
    key ran
  show ?thesis
    by (simp add: unit_args_def)
qed

end
